theory Spec2Isabelle
  imports Main "HOL-Library.Sublist"
begin

section \<open>Python values\<close>

text \<open>
  A Python \<open>str\<close> is a sequence of code points in \<open>range(0x110000)\<close>; the surrogate
  code points U+D800..U+DFFF are allowed in a \<open>str\<close>. A \<open>bytes\<close> object is a
  sequence of integers in \<open>range(256)\<close>. File names are kept as HOL strings.
\<close>

type_synonym codepoint = nat
type_synonym pystr = "codepoint list"
type_synonym pybytes = "nat list"
type_synonym path = string

definition is_codepoint :: "codepoint \<Rightarrow> bool" where
  "is_codepoint c \<longleftrightarrow> c < 0x110000"

definition is_surrogate :: "codepoint \<Rightarrow> bool" where
  "is_surrogate c \<longleftrightarrow> 0xD800 \<le> c \<and> c \<le> 0xDFFF"

text \<open>An ASCII literal of the source, as a \<open>str\<close>.\<close>

definition py_str :: "string \<Rightarrow> pystr" where
  "py_str s = map of_char s"

datatype pyval = PyNone | PyInt nat

datatype py_error =
    FileNotFoundError
  | IsADirectoryError
  | PermissionError
  | UnicodeEncodeError
  | NameError string

section \<open>\<open>json.dumps(lst, ensure_ascii=False)\<close> on a list of strings\<close>

text \<open>
  The standard library's string encoder with \<open>ensure_ascii=False\<close>
  (\<open>py_encode_basestring\<close>): the characters matched by
  \<^verbatim>\<open>[\x00-\x1f\\"\b\f\n\r\t]\<close> are replaced through \<open>ESCAPE_DCT\<close>, whose entries are
  the two-character escapes for backslash, quote, \<open>\b \f \n \r \t\<close>, and
  \<^verbatim>\<open>'\\u{0:04x}'.format(i)\<close> for every other \<open>i\<close> in \<open>range(0x20)\<close>. Every other
  character is copied.
\<close>

definition hexdigit :: "nat \<Rightarrow> codepoint" where
  "hexdigit d = (if d < 10 then 0x30 + d else 0x61 + (d - 10))"

definition hex4 :: "nat \<Rightarrow> pystr" where
  "hex4 n = [hexdigit (n div 4096 mod 16), hexdigit (n div 256 mod 16),
             hexdigit (n div 16 mod 16), hexdigit (n mod 16)]"

definition escape_char :: "codepoint \<Rightarrow> pystr" where
  "escape_char c =
     (if c = 0x5C then [0x5C, 0x5C]
      else if c = 0x22 then [0x5C, 0x22]
      else if c = 0x08 then [0x5C, 0x62]
      else if c = 0x0C then [0x5C, 0x66]
      else if c = 0x0A then [0x5C, 0x6E]
      else if c = 0x0D then [0x5C, 0x72]
      else if c = 0x09 then [0x5C, 0x74]
      else if c < 0x20 then [0x5C, 0x75] @ hex4 c
      else [c])"

definition py_encode_basestring :: "pystr \<Rightarrow> pystr" where
  "py_encode_basestring s = [0x22] @ concat (map escape_char s) @ [0x22]"

text \<open>\<open>sep.join(xs)\<close>.\<close>

fun join :: "pystr \<Rightarrow> pystr list \<Rightarrow> pystr" where
  "join sep [] = []"
| "join sep [x] = x"
| "join sep (x # y # ys) = x @ sep @ join sep (y # ys)"

text \<open>
  A list is written as \<open>[\<close>, the items separated by the default item separator
  \<open>', '\<close>, and \<open>]\<close>; the empty list is \<open>[]\<close>.
\<close>

definition json_dumps :: "pystr list \<Rightarrow> pystr" where
  "json_dumps lst = [0x5B] @ join [0x2C, 0x20] (map py_encode_basestring lst) @ [0x5D]"

section \<open>\<open>str.encode('utf8')\<close>\<close>

text \<open>
  The strict UTF-8 encoder: one to four bytes per code point; a surrogate code point
  raises \<open>UnicodeEncodeError\<close>. (A value from \<open>0x110000\<close> on is no code point of a
  \<open>str\<close>; the model gives no bytes for it.)
\<close>

definition utf8_char :: "codepoint \<Rightarrow> pybytes option" where
  "utf8_char c =
     (if c < 0x80 then Some [c]
      else if c < 0x800 then Some [0xC0 + c div 64, 0x80 + c mod 64]
      else if c < 0x10000 then
        (if is_surrogate c then None
         else Some [0xE0 + c div 4096, 0x80 + c div 64 mod 64, 0x80 + c mod 64])
      else if c < 0x110000 then
        Some [0xF0 + c div 262144, 0x80 + c div 4096 mod 64,
              0x80 + c div 64 mod 64, 0x80 + c mod 64]
      else None)"

fun str_encode_utf8 :: "pystr \<Rightarrow> py_error + pybytes" where
  "str_encode_utf8 [] = Inr []"
| "str_encode_utf8 (c # cs) =
     (case utf8_char c of
        None \<Rightarrow> Inl UnicodeEncodeError
      | Some bs \<Rightarrow>
          (case str_encode_utf8 cs of
             Inl e \<Rightarrow> Inl e
           | Inr rest \<Rightarrow> Inr (bs @ rest)))"

section \<open>The file system\<close>

text \<open>
  The part of the platform that \<open>open(filename, 'wb')\<close> and \<open>f.write\<close> see: the
  directories that exist, the regular files with their contents, and the paths the
  process may not write. The directory of a path is what precedes its last \<open>/\<close>; the
  empty directory name stands for the directory a bare file name is resolved in, which
  always exists.
\<close>

record filesystem =
  dirs :: "path set"
  files :: "path \<rightharpoonup> pybytes"
  readonly :: "path set"

definition dirname :: "path \<Rightarrow> path" where
  "dirname p = rev (tl (dropWhile (\<lambda>c. c \<noteq> CHR ''/'') (rev p)))"

definition dir_exists :: "filesystem \<Rightarrow> path \<Rightarrow> bool" where
  "dir_exists fs d \<longleftrightarrow> d = [] \<or> d \<in> dirs fs"

text \<open>
  \<open>open(p, 'wb')\<close>: fails when the directory is missing, when \<open>p\<close> names a directory
  or when writing is denied; otherwise the file exists afterwards and is empty
  (created or truncated).
\<close>

definition open_wb :: "path \<Rightarrow> filesystem \<Rightarrow> py_error + filesystem" where
  "open_wb p fs =
     (if p = [] \<or> \<not> dir_exists fs (dirname p) then Inl FileNotFoundError
      else if p \<in> dirs fs then Inl IsADirectoryError
      else if p \<in> readonly fs then Inl PermissionError
      else Inr (fs\<lparr>files := (files fs)(p \<mapsto> [])\<rparr>))"

text \<open>
  \<open>f.write(data)\<close> on the handle just opened: the bytes go behind what the file
  holds, and the number of bytes written is returned.
\<close>

definition file_write :: "path \<Rightarrow> pybytes \<Rightarrow> filesystem \<Rightarrow> pyval \<times> filesystem" where
  "file_write p data fs =
     (PyInt (length data),
      fs\<lparr>files := (files fs)(p \<mapsto> (case files fs p of None \<Rightarrow> data | Some old \<Rightarrow> old @ data))\<rparr>)"

section \<open>\<open>convert_list_to_json\<close>\<close>

text \<open>
  \<^verbatim>\<open>
  def convert_list_to_json(lst, filename='countries.json'):
      with open(filename, 'wb') as f:
          f.write(json.dumps(lst, ensure_ascii=False).encode('utf8'))
  \<close>
  The second argument is optional. The file is opened before the argument of
  \<open>f.write\<close> is evaluated, so an encoding error leaves the opened (empty) file behind.
  The value of \<open>f.write\<close> is dropped and the function returns \<open>None\<close>. The result
  is the raised error or the returned value, and the file system afterwards.
\<close>

definition convert_list_to_json ::
    "pystr list \<Rightarrow> path option \<Rightarrow> filesystem \<Rightarrow> (py_error + pyval) \<times> filesystem" where
  "convert_list_to_json lst filename_arg fs =
     (let filename = (case filename_arg of None \<Rightarrow> ''countries.json'' | Some p \<Rightarrow> p) in
      case open_wb filename fs of
        Inl e \<Rightarrow> (Inl e, fs)
      | Inr fs1 \<Rightarrow>
          (case str_encode_utf8 (json_dumps lst) of
             Inl e \<Rightarrow> (Inl e, fs1)
           | Inr data \<Rightarrow>
               (case file_write filename data fs1 of
                  (n, fs2) \<Rightarrow> (Inr PyNone, fs2))))"

section \<open>The module\<close>

text \<open>
  The list \<open>countries\<close> is bound inside \<^verbatim>\<open>if __name__ == '__main__':\<close>; the call
  \<^verbatim>\<open>convert_list_to_json(countries, 'exercises/countries.json')\<close> on the last line is
  outside it.
\<close>

definition countries :: "pystr list" where
  "countries =
    [py_str ''Afghanistan'', [0xC5] @ py_str ''land Islands'', py_str ''Albania'',
     py_str ''Algeria'', py_str ''American Samoa'', py_str ''Andorra'', py_str ''Angola'',
     py_str ''Anguilla'', py_str ''Antarctica'', py_str ''Antigua and Barbuda'',
     py_str ''Argentina'', py_str ''Armenia'', py_str ''Aruba'', py_str ''Australia'',
     py_str ''Austria'', py_str ''Azerbaijan'', py_str ''Bahamas'', py_str ''Bahrain'',
     py_str ''Bangladesh'', py_str ''Barbados'', py_str ''Belarus'', py_str ''Belgium'',
     py_str ''Belize'', py_str ''Benin'', py_str ''Bermuda'', py_str ''Bhutan'',
     py_str ''Bolivia (Plurinational State of)'',
     py_str ''Bonaire, Sint Eustatius and Saba'', py_str ''Bosnia and Herzegovina'',
     py_str ''Botswana'', py_str ''Bouvet Island'', py_str ''Brazil'',
     py_str ''British Indian Ocean Territory'',
     py_str ''United States Minor Outlying Islands'', py_str ''Virgin Islands (British)'',
     py_str ''Virgin Islands (U.S.)'', py_str ''Brunei Darussalam'', py_str ''Bulgaria'',
     py_str ''Burkina Faso'', py_str ''Burundi'', py_str ''Cambodia'', py_str ''Cameroon'',
     py_str ''Canada'', py_str ''Cabo Verde'', py_str ''Cayman Islands'',
     py_str ''Central African Republic'', py_str ''Chad'', py_str ''Chile'',
     py_str ''China'', py_str ''Christmas Island'', py_str ''Cocos (Keeling) Islands'',
     py_str ''Colombia'', py_str ''Comoros'', py_str ''Congo'',
     py_str ''Congo (Democratic Republic of the)'', py_str ''Cook Islands'',
     py_str ''Costa Rica'', py_str ''Croatia'', py_str ''Cuba'',
     py_str ''Cura'' @ [0xE7] @ py_str ''ao'', py_str ''Cyprus'',
     py_str ''Czech Republic'', py_str ''Denmark'', py_str ''Djibouti'',
     py_str ''Dominica'', py_str ''Dominican Republic'', py_str ''Ecuador'',
     py_str ''Egypt'', py_str ''El Salvador'', py_str ''Equatorial Guinea'',
     py_str ''Eritrea'', py_str ''Estonia'', py_str ''Ethiopia'',
     py_str ''Falkland Islands (Malvinas)'', py_str ''Faroe Islands'', py_str ''Fiji'',
     py_str ''Finland'', py_str ''France'', py_str ''French Guiana'',
     py_str ''French Polynesia'', py_str ''French Southern Territories'', py_str ''Gabon'',
     py_str ''Gambia'', py_str ''Georgia'', py_str ''Germany'', py_str ''Ghana'',
     py_str ''Gibraltar'', py_str ''Greece'', py_str ''Greenland'', py_str ''Grenada'',
     py_str ''Guadeloupe'', py_str ''Guam'', py_str ''Guatemala'', py_str ''Guernsey'',
     py_str ''Guinea'', py_str ''Guinea-Bissau'', py_str ''Guyana'', py_str ''Haiti'',
     py_str ''Heard Island and McDonald Islands'', py_str ''Holy See'',
     py_str ''Honduras'', py_str ''Hong Kong'', py_str ''Hungary'', py_str ''Iceland'',
     py_str ''India'', py_str ''Indonesia'',
     py_str ''C'' @ [0xF4] @ py_str ''te d'Ivoire'', py_str ''Iran (Islamic Republic of)'',
     py_str ''Iraq'', py_str ''Ireland'', py_str ''Isle of Man'', py_str ''Israel'',
     py_str ''Italy'', py_str ''Jamaica'', py_str ''Japan'', py_str ''Jersey'',
     py_str ''Jordan'', py_str ''Kazakhstan'', py_str ''Kenya'', py_str ''Kiribati'',
     py_str ''Kuwait'', py_str ''Kyrgyzstan'', py_str ''Lao People's Democratic Republic'',
     py_str ''Latvia'', py_str ''Lebanon'', py_str ''Lesotho'', py_str ''Liberia'',
     py_str ''Libya'', py_str ''Liechtenstein'', py_str ''Lithuania'',
     py_str ''Luxembourg'', py_str ''Macao'',
     py_str ''Macedonia (the former Yugoslav Republic of)'', py_str ''Madagascar'',
     py_str ''Malawi'', py_str ''Malaysia'', py_str ''Maldives'', py_str ''Mali'',
     py_str ''Malta'', py_str ''Marshall Islands'', py_str ''Martinique'',
     py_str ''Mauritania'', py_str ''Mauritius'', py_str ''Mayotte'', py_str ''Mexico'',
     py_str ''Micronesia (Federated States of)'', py_str ''Moldova (Republic of)'',
     py_str ''Monaco'', py_str ''Mongolia'', py_str ''Montenegro'', py_str ''Montserrat'',
     py_str ''Morocco'', py_str ''Mozambique'', py_str ''Myanmar'', py_str ''Namibia'',
     py_str ''Nauru'', py_str ''Nepal'', py_str ''Netherlands'', py_str ''New Caledonia'',
     py_str ''New Zealand'', py_str ''Nicaragua'', py_str ''Niger'', py_str ''Nigeria'',
     py_str ''Niue'', py_str ''Norfolk Island'',
     py_str ''Korea (Democratic People's Republic of)'',
     py_str ''Northern Mariana Islands'', py_str ''Norway'', py_str ''Oman'',
     py_str ''Pakistan'', py_str ''Palau'', py_str ''Palestine, State of'',
     py_str ''Panama'', py_str ''Papua New Guinea'', py_str ''Paraguay'', py_str ''Peru'',
     py_str ''Philippines'', py_str ''Pitcairn'', py_str ''Poland'', py_str ''Portugal'',
     py_str ''Puerto Rico'', py_str ''Qatar'', py_str ''Republic of Kosovo'',
     py_str ''R'' @ [0xE9] @ py_str ''union'', py_str ''Romania'',
     py_str ''Russian Federation'', py_str ''Rwanda'',
     py_str ''Saint Barth'' @ [0xE9] @ py_str ''lemy'',
     py_str ''Saint Helena, Ascension and Tristan da Cunha'',
     py_str ''Saint Kitts and Nevis'', py_str ''Saint Lucia'',
     py_str ''Saint Martin (French part)'', py_str ''Saint Pierre and Miquelon'',
     py_str ''Saint Vincent and the Grenadines'', py_str ''Samoa'', py_str ''San Marino'',
     py_str ''Sao Tome and Principe'', py_str ''Saudi Arabia'', py_str ''Senegal'',
     py_str ''Serbia'', py_str ''Seychelles'', py_str ''Sierra Leone'',
     py_str ''Singapore'', py_str ''Sint Maarten (Dutch part)'', py_str ''Slovakia'',
     py_str ''Slovenia'', py_str ''Solomon Islands'', py_str ''Somalia'',
     py_str ''South Africa'', py_str ''South Georgia and the South Sandwich Islands'',
     py_str ''Korea (Republic of)'', py_str ''South Sudan'', py_str ''Spain'',
     py_str ''Sri Lanka'', py_str ''Sudan'', py_str ''Suriname'',
     py_str ''Svalbard and Jan Mayen'', py_str ''Swaziland'', py_str ''Sweden'',
     py_str ''Switzerland'', py_str ''Syrian Arab Republic'', py_str ''Taiwan'',
     py_str ''Tajikistan'', py_str ''Tanzania, United Republic of'', py_str ''Thailand'',
     py_str ''Timor-Leste'', py_str ''Togo'', py_str ''Tokelau'', py_str ''Tonga'',
     py_str ''Trinidad and Tobago'', py_str ''Tunisia'', py_str ''Turkey'',
     py_str ''Turkmenistan'', py_str ''Turks and Caicos Islands'', py_str ''Tuvalu'',
     py_str ''Uganda'', py_str ''Ukraine'', py_str ''United Arab Emirates'',
     py_str ''United Kingdom of Great Britain and Northern Ireland'',
     py_str ''United States of America'', py_str ''Uruguay'', py_str ''Uzbekistan'',
     py_str ''Vanuatu'', py_str ''Venezuela (Bolivarian Republic of)'',
     py_str ''Viet Nam'', py_str ''Wallis and Futuna'', py_str ''Western Sahara'',
     py_str ''Yemen'', py_str ''Zambia'', py_str ''Zimbabwe'']"

text \<open>The module's global names that the last line reads, after the guarded block.\<close>

definition module_globals :: "string \<Rightarrow> (string \<rightharpoonup> pystr list)" where
  "module_globals name =
     (if name = ''__main__'' then [''countries'' \<mapsto> countries] else Map.empty)"

text \<open>
  Executing the module with \<open>__name__\<close> bound to \<open>name\<close>: the argument
  \<open>countries\<close> is looked up before the call; an unbound name raises \<open>NameError\<close>.
\<close>

definition run_module :: "string \<Rightarrow> filesystem \<Rightarrow> (py_error + pyval) \<times> filesystem" where
  "run_module name fs =
     (case module_globals name ''countries'' of
        None \<Rightarrow> (Inl (NameError ''countries''), fs)
      | Some lst \<Rightarrow> convert_list_to_json lst (Some ''exercises/countries.json'') fs)"

section \<open>Reading the file back\<close>

text \<open>
  The reader the round-trip law speaks of: the strict UTF-8 decoder
  (\<open>bytes.decode('utf8')\<close>: no overlong forms, no surrogates, nothing above U+10FFFF)
  and a JSON parser for an array of strings (RFC 8259 as \<open>json.loads\<close> reads it:
  white space around the structural characters, the escapes
  \<^verbatim>\<open>\" \\ \/ \b \f \n \r \t \uXXXX\<close>, a surrogate pair of \<^verbatim>\<open>\u\<close> escapes joined into one
  code point, no raw control character inside a string).
\<close>

definition is_cont :: "nat \<Rightarrow> bool" where
  "is_cont b \<longleftrightarrow> 0x80 \<le> b \<and> b < 0xC0"

definition utf8_next :: "pybytes \<Rightarrow> (codepoint \<times> nat) option" where
  "utf8_next bs =
     (case bs of
        [] \<Rightarrow> None
      | b0 # r \<Rightarrow>
          if b0 < 0x80 then Some (b0, 1)
          else if b0 < 0xC2 then None
          else if b0 < 0xE0 then
            (case r of
               b1 # _ \<Rightarrow>
                 if is_cont b1 then Some ((b0 - 0xC0) * 64 + (b1 - 0x80), 2) else None
             | _ \<Rightarrow> None)
          else if b0 < 0xF0 then
            (case r of
               b1 # b2 # _ \<Rightarrow>
                 (let c = (b0 - 0xE0) * 4096 + (b1 - 0x80) * 64 + (b2 - 0x80) in
                  if is_cont b1 \<and> is_cont b2 \<and> 0x800 \<le> c \<and> \<not> is_surrogate c
                  then Some (c, 3) else None)
             | _ \<Rightarrow> None)
          else if b0 < 0xF5 then
            (case r of
               b1 # b2 # b3 # _ \<Rightarrow>
                 (let c = (b0 - 0xF0) * 262144 + (b1 - 0x80) * 4096
                          + (b2 - 0x80) * 64 + (b3 - 0x80) in
                  if is_cont b1 \<and> is_cont b2 \<and> is_cont b3 \<and> 0x10000 \<le> c \<and> c < 0x110000
                  then Some (c, 4) else None)
             | _ \<Rightarrow> None)
          else None)"

function bytes_decode_utf8 :: "pybytes \<Rightarrow> pystr option" where
  "bytes_decode_utf8 bs =
     (if bs = [] then Some []
      else case utf8_next bs of
             None \<Rightarrow> None
           | Some (c, n) \<Rightarrow>
               (case bytes_decode_utf8 (drop n bs) of
                  None \<Rightarrow> None
                | Some cs \<Rightarrow> Some (c # cs)))"
  by pat_completeness auto
termination
proof (relation "measure length", goal_cases)
  case 1
  show ?case by simp
next
  case (2 bs x c n)
  then have "0 < n"
    by (auto simp: utf8_next_def Let_def split: list.splits if_splits)
  with 2 show ?case by simp
qed

declare bytes_decode_utf8.simps [simp del]

definition is_ws :: "codepoint \<Rightarrow> bool" where
  "is_ws c \<longleftrightarrow> c = 0x20 \<or> c = 0x09 \<or> c = 0x0A \<or> c = 0x0D"

definition skip_ws :: "pystr \<Rightarrow> pystr" where
  "skip_ws s = dropWhile is_ws s"

definition hexval :: "codepoint \<Rightarrow> nat option" where
  "hexval c =
     (if 0x30 \<le> c \<and> c \<le> 0x39 then Some (c - 0x30)
      else if 0x61 \<le> c \<and> c \<le> 0x66 then Some (c - 0x61 + 10)
      else if 0x41 \<le> c \<and> c \<le> 0x46 then Some (c - 0x41 + 10)
      else None)"

definition decode_uXXXX :: "pystr \<Rightarrow> nat option" where
  "decode_uXXXX s =
     (case s of
        a # b # c # d # _ \<Rightarrow>
          (case (hexval a, hexval b, hexval c, hexval d) of
             (Some x, Some y, Some z, Some w) \<Rightarrow> Some (((x * 16 + y) * 16 + z) * 16 + w)
           | _ \<Rightarrow> None)
      | _ \<Rightarrow> None)"

definition unescape :: "codepoint \<Rightarrow> codepoint option" where
  "unescape e =
     (if e = 0x22 then Some 0x22
      else if e = 0x5C then Some 0x5C
      else if e = 0x2F then Some 0x2F
      else if e = 0x62 then Some 0x08
      else if e = 0x66 then Some 0x0C
      else if e = 0x6E then Some 0x0A
      else if e = 0x72 then Some 0x0D
      else if e = 0x74 then Some 0x09
      else None)"

definition scan_char :: "pystr \<Rightarrow> (codepoint \<times> nat) option" where
  "scan_char s =
     (case s of
        [] \<Rightarrow> None
      | c # cs \<Rightarrow>
          if c = 0x22 \<or> c < 0x20 then None
          else if c \<noteq> 0x5C then Some (c, 1)
          else
            (case cs of
               [] \<Rightarrow> None
             | e # r \<Rightarrow>
                 if e \<noteq> 0x75 then
                   (case unescape e of None \<Rightarrow> None | Some ch \<Rightarrow> Some (ch, 2))
                 else
                   (case decode_uXXXX r of
                      None \<Rightarrow> None
                    | Some uni \<Rightarrow>
                        if 0xD800 \<le> uni \<and> uni \<le> 0xDBFF \<and> take 2 (drop 4 r) = [0x5C, 0x75] then
                          (case decode_uXXXX (drop 6 r) of
                             None \<Rightarrow> None
                           | Some uni2 \<Rightarrow>
                               if 0xDC00 \<le> uni2 \<and> uni2 \<le> 0xDFFF
                               then Some (0x10000 + (uni - 0xD800) * 1024 + (uni2 - 0xDC00), 12)
                               else Some (uni, 6))
                        else Some (uni, 6))))"

function scanstring :: "pystr \<Rightarrow> (pystr \<times> pystr) option" where
  "scanstring s =
     (case s of
        [] \<Rightarrow> None
      | c # cs \<Rightarrow>
          if c = 0x22 then Some ([], cs)
          else
            (case scan_char s of
               None \<Rightarrow> None
             | Some (ch, n) \<Rightarrow>
                 (case scanstring (drop n s) of
                    None \<Rightarrow> None
                  | Some (t, rest) \<Rightarrow> Some (ch # t, rest))))"
  by pat_completeness auto
termination
proof (relation "measure length", goal_cases)
  case 1
  show ?case by simp
next
  case (2 s c cs x ch n)
  have "case scan_char u of None \<Rightarrow> True | Some (a, k) \<Rightarrow> 0 < k" for u
    by (simp add: scan_char_def split: list.split option.split)
  from this[of s] 2 show ?case by auto
qed

declare scanstring.simps [simp del]

function parse_items :: "pystr \<Rightarrow> (pystr list \<times> pystr) option" where
  "parse_items s =
     (case s of
        [] \<Rightarrow> None
      | c # cs \<Rightarrow>
          if c \<noteq> 0x22 then None
          else
            (case scanstring cs of
               None \<Rightarrow> None
             | Some (item, rest) \<Rightarrow>
                 (case skip_ws rest of
                    [] \<Rightarrow> None
                  | d # ds \<Rightarrow>
                      if d = 0x5D then Some ([item], ds)
                      else if d = 0x2C then
                        (case parse_items (skip_ws ds) of
                           None \<Rightarrow> None
                         | Some (items, rest') \<Rightarrow> Some (item # items, rest'))
                      else None)))"
  by pat_completeness auto
termination
proof (relation "measure length", goal_cases)
  case 1
  show ?case by simp
next
  case (2 s c cs x item rest d ds)
  have shorter: "scanstring u = Some (t, r) \<Longrightarrow> length r < length u" for u t r
  proof (induction u arbitrary: t r rule: scanstring.induct)
    case (1 u)
    show ?case
    proof (cases u)
      case Nil
      with "1.prems" show ?thesis by (simp add: scanstring.simps)
    next
      case (Cons a as)
      show ?thesis
      proof (cases "a = 0x22")
        case True
        with Cons "1.prems" show ?thesis by (simp add: scanstring.simps)
      next
        case False
        from "1.prems" Cons False obtain ch n t' where
          sc: "scan_char u = Some (ch, n)" and
          rec: "scanstring (drop n u) = Some (t', r)"
          by (subst (asm) scanstring.simps) (auto split: option.splits)
        from "1.IH"[OF Cons False sc refl rec] have "length r < length (drop n u)" .
        then show ?thesis by simp
      qed
    qed
  qed
  have ws: "length (skip_ws u) \<le> length u" for u
    by (simp add: skip_ws_def length_dropWhile_le)
  have "length (skip_ws ds) \<le> length ds" by (rule ws)
  also have "length ds < length (skip_ws rest)" using 2 by simp
  also have "\<dots> \<le> length rest" by (rule ws)
  also have "\<dots> < length cs" using 2 by (auto dest: shorter)
  finally show ?case using 2 by simp
qed

declare parse_items.simps [simp del]

definition json_loads :: "pystr \<Rightarrow> pystr list option" where
  "json_loads s =
     (case skip_ws s of
        [] \<Rightarrow> None
      | c # cs \<Rightarrow>
          if c \<noteq> 0x5B then None
          else
            (case skip_ws cs of
               [] \<Rightarrow> None
             | d # ds \<Rightarrow>
                 if d = 0x5D then (if skip_ws ds = [] then Some [] else None)
                 else
                   (case parse_items (d # ds) of
                      None \<Rightarrow> None
                    | Some (items, rest) \<Rightarrow> if skip_ws rest = [] then Some items else None)))"

definition read_json :: "path \<Rightarrow> filesystem \<Rightarrow> pystr list option" where
  "read_json p fs =
     (case files fs p of
        None \<Rightarrow> None
      | Some data \<Rightarrow>
          (case bytes_decode_utf8 data of
             None \<Rightarrow> None
           | Some text \<Rightarrow> json_loads text))"

section \<open>Auxiliary notions for the statements\<close>

text \<open>
  The bytes one character of an element contributes to the file: its JSON escape
  (or the character itself), encoded as UTF-8.
\<close>

definition utf8_bytes :: "pystr \<Rightarrow> pybytes" where
  "utf8_bytes s = concat (map (\<lambda>c. case utf8_char c of None \<Rightarrow> [] | Some bs \<Rightarrow> bs) s)"

definition written_char :: "codepoint \<Rightarrow> pybytes" where
  "written_char c = utf8_bytes (escape_char c)"

text \<open>A file system that holds nothing but the working directory.\<close>

definition empty_fs :: filesystem where
  "empty_fs = \<lparr>dirs = {}, files = Map.empty, readonly = {}\<rparr>"

section \<open>UTF-8: decoding what the encoder wrote\<close>

lemma recon3: "(c::nat) div 4096 * 4096 + c div 64 mod 64 * 64 + c mod 64 = c"
proof -
  define d where "d = c div 64"
  have q: "c div 4096 = d div 64"
    unfolding d_def by (simp add: div_mult2_eq[symmetric])
  have "d div 64 * 64 + d mod 64 = d" by simp
  then have "d div 64 * 4096 + d mod 64 * 64 = d * 64" by arith
  moreover have "d * 64 + c mod 64 = c" unfolding d_def by simp
  ultimately show ?thesis unfolding q d_def[symmetric] by arith
qed

lemma recon4:
  "(c::nat) div 262144 * 262144 + c div 4096 mod 64 * 4096 + c div 64 mod 64 * 64 + c mod 64 = c"
proof -
  define e where "e = c div 4096"
  have q: "c div 262144 = e div 64"
    unfolding e_def by (simp add: div_mult2_eq[symmetric])
  have "e div 64 * 64 + e mod 64 = e" by simp
  then have "e div 64 * 262144 + e mod 64 * 4096 = e * 4096" by arith
  moreover have "e * 4096 + c div 64 mod 64 * 64 + c mod 64 = c"
    unfolding e_def using recon3[of c] by simp
  ultimately show ?thesis unfolding q e_def[symmetric] by arith
qed

lemma utf8_next_char1:
  "c < 0x80 \<Longrightarrow> utf8_next ([c] @ rest) = Some (c, 1)"
  by (simp add: utf8_next_def)

lemma utf8_next_char2:
  assumes "0x80 \<le> c" "c < 0x800"
  shows "utf8_next ([0xC0 + c div 64, 0x80 + c mod 64] @ rest) = Some (c, 2)"
proof -
  have "2 \<le> c div 64" "c div 64 < 32" using assms by auto
  then show ?thesis
    by (simp add: utf8_next_def is_cont_def)
qed

lemma utf8_next_char3:
  assumes "0x800 \<le> c" "c < 0x10000" "\<not> is_surrogate c"
  shows "utf8_next ([0xE0 + c div 4096, 0x80 + c div 64 mod 64, 0x80 + c mod 64] @ rest)
         = Some (c, 3)"
proof -
  have "c div 4096 < 16" using assms by auto
  then show ?thesis using assms
    by (simp add: utf8_next_def is_cont_def Let_def recon3)
qed

lemma utf8_next_char4:
  assumes "0x10000 \<le> c" "c < 0x110000"
  shows "utf8_next ([0xF0 + c div 262144, 0x80 + c div 4096 mod 64,
                     0x80 + c div 64 mod 64, 0x80 + c mod 64] @ rest) = Some (c, 4)"
proof -
  have "c div 262144 < 5" using assms by auto
  then show ?thesis using assms
    by (simp add: utf8_next_def is_cont_def Let_def recon4)
qed

lemma utf8_next_char:
  "utf8_char c = Some bs \<Longrightarrow> utf8_next (bs @ rest) = Some (c, length bs)"
  unfolding utf8_char_def
  using utf8_next_char1[of c rest] utf8_next_char2[of c rest] utf8_next_char3[of c rest]
    utf8_next_char4[of c rest]
  by (auto split: if_splits)

lemma bytes_decode_utf8_Nil: "bytes_decode_utf8 [] = Some []"
  by (simp add: bytes_decode_utf8.simps)

lemma utf8_char_nonempty: "utf8_char c = Some bs \<Longrightarrow> bs \<noteq> []"
  by (auto simp: utf8_char_def split: if_splits)

lemma bytes_decode_utf8_char:
  assumes "utf8_char c = Some bs"
  shows "bytes_decode_utf8 (bs @ rest) =
         (case bytes_decode_utf8 rest of None \<Rightarrow> None | Some cs \<Rightarrow> Some (c # cs))"
proof -
  have ne: "bs \<noteq> []" by (rule utf8_char_nonempty[OF assms])
  have nx: "utf8_next (bs @ rest) = Some (c, length bs)"
    by (rule utf8_next_char[OF assms])
  show ?thesis
    by (subst bytes_decode_utf8.simps) (simp add: ne nx)
qed

lemma decode_encode_utf8:
  "str_encode_utf8 s = Inr bs \<Longrightarrow> bytes_decode_utf8 bs = Some s"
proof (induction s arbitrary: bs)
  case Nil
  then show ?case by (simp add: bytes_decode_utf8_Nil)
next
  case (Cons c cs)
  from Cons.prems obtain b1 r where
    c: "utf8_char c = Some b1" and r: "str_encode_utf8 cs = Inr r" and bs: "bs = b1 @ r"
    by (auto split: option.splits sum.splits)
  from Cons.IH[OF r] show ?case
    by (simp add: bs bytes_decode_utf8_char[OF c])
qed

section \<open>JSON: parsing what \<open>json.dumps\<close> wrote\<close>

lemma hexval_hexdigit: "d < 16 \<Longrightarrow> hexval (hexdigit d) = Some d"
  by (auto simp: hexval_def hexdigit_def)

lemma hex4_value:
  "((n div 4096 * 16 + n div 256 mod 16) * 16 + n div 16 mod 16) * 16 + n mod 16 = (n::nat)"
proof -
  define a where "a = n div 16"
  define b where "b = n div 256"
  have b: "b = a div 16" unfolding a_def b_def by (simp add: div_mult2_eq[symmetric])
  have c: "n div 4096 = b div 16" unfolding b_def by (simp add: div_mult2_eq[symmetric])
  have "b div 16 * 16 + b mod 16 = b" by simp
  moreover have "a div 16 * 16 + a mod 16 = a" by simp
  moreover have "a * 16 + n mod 16 = n" unfolding a_def by simp
  ultimately show ?thesis
    unfolding c b_def[symmetric] a_def[symmetric] using b by simp
qed

lemma decode_uXXXX_hex4:
  assumes "n < 0x10000"
  shows "decode_uXXXX (hex4 n @ rest) = Some n"
proof -
  have a: "n div 4096 mod 16 = n div 4096" using assms by auto
  have "n div 4096 < 16" using assms by auto
  then have h: "hexval (hexdigit (n div 4096)) = Some (n div 4096)"
    by (rule hexval_hexdigit)
  have m: "hexval (hexdigit (k mod 16)) = Some (k mod 16)" for k
    by (rule hexval_hexdigit) simp
  have "decode_uXXXX (hex4 n @ rest) =
        Some (((n div 4096 * 16 + n div 256 mod 16) * 16 + n div 16 mod 16) * 16 + n mod 16)"
    by (simp add: decode_uXXXX_def hex4_def a h m)
  then show ?thesis by (simp only: hex4_value)
qed

lemma scan_char_escape:
  "scan_char (escape_char c @ rest) = Some (c, length (escape_char c))"
proof (cases "c < 0x20 \<and> c \<notin> {0x08, 0x0C, 0x0A, 0x0D, 0x09}")
  case True
  then have e: "escape_char c = [0x5C, 0x75] @ hex4 c"
    by (auto simp: escape_char_def)
  have "decode_uXXXX (hex4 c @ rest) = Some c"
    using True by (intro decode_uXXXX_hex4) simp
  then show ?thesis using True
    by (simp add: e scan_char_def hex4_def)
next
  case False
  then show ?thesis
    by (auto simp: escape_char_def scan_char_def unescape_def)
qed

lemma escape_char_nonempty: "escape_char c \<noteq> []"
  by (simp add: escape_char_def hex4_def)

lemma escape_char_hd: "hd (escape_char c) \<noteq> 0x22"
  by (simp add: escape_char_def)

lemma scanstring_quote: "scanstring (0x22 # rest) = Some ([], rest)"
  by (simp add: scanstring.simps)

lemma scanstring_escape:
  "scanstring (escape_char c @ rest) =
     (case scanstring rest of None \<Rightarrow> None | Some (t, r) \<Rightarrow> Some (c # t, r))"
proof -
  obtain x xs where e: "escape_char c = x # xs"
    using escape_char_nonempty[of c] by (cases "escape_char c") auto
  have x: "x \<noteq> 0x22" using escape_char_hd[of c] e by simp
  have "scanstring ((x # xs) @ rest) =
     (case scan_char ((x # xs) @ rest) of None \<Rightarrow> None
      | Some (ch, n) \<Rightarrow>
          (case scanstring (drop n ((x # xs) @ rest)) of None \<Rightarrow> None
           | Some (t, r) \<Rightarrow> Some (ch # t, r)))"
    using x by (subst scanstring.simps) simp
  then show ?thesis
    unfolding e[symmetric] scan_char_escape by simp
qed

lemma scanstring_body:
  "scanstring (concat (map escape_char s) @ 0x22 # rest) = Some (s, rest)"
  by (induction s) (simp_all add: scanstring_quote scanstring_escape)

lemma py_encode_basestring_Cons:
  "py_encode_basestring s = 0x22 # (concat (map escape_char s) @ [0x22])"
  by (simp add: py_encode_basestring_def)

lemma skip_ws_nonws: "\<not> is_ws c \<Longrightarrow> skip_ws (c # cs) = c # cs"
  by (simp add: skip_ws_def)

lemma skip_ws_space: "skip_ws (0x20 # cs) = skip_ws cs"
  by (simp add: skip_ws_def is_ws_def)

lemma parse_items_quote:
  "parse_items (0x22 # cs) =
     (case scanstring cs of
        None \<Rightarrow> None
      | Some (item, rest) \<Rightarrow>
          (case skip_ws rest of
             [] \<Rightarrow> None
           | d # ds \<Rightarrow>
               if d = 0x5D then Some ([item], ds)
               else if d = 0x2C then
                 (case parse_items (skip_ws ds) of
                    None \<Rightarrow> None
                  | Some (items, rest') \<Rightarrow> Some (item # items, rest'))
               else None))"
  by (subst parse_items.simps) simp

lemma parse_items_last:
  "parse_items (py_encode_basestring x @ 0x5D # rest) = Some ([x], rest)"
  by (simp add: py_encode_basestring_Cons parse_items_quote scanstring_body skip_ws_nonws
      is_ws_def)

lemma parse_items_more:
  "parse_items (py_encode_basestring x @ [0x2C, 0x20] @ 0x22 # ms) =
     (case parse_items (0x22 # ms) of None \<Rightarrow> None
      | Some (items, rest) \<Rightarrow> Some (x # items, rest))"
  by (simp add: py_encode_basestring_Cons parse_items_quote[of "concat _ @ _"] scanstring_body
      skip_ws_nonws skip_ws_space is_ws_def)

lemma parse_items_join:
  "parse_items (join [0x2C, 0x20] (map py_encode_basestring (x # xs)) @ 0x5D # rest)
   = Some (x # xs, rest)"
proof (induction xs arbitrary: x)
  case Nil
  show ?case by (simp add: parse_items_last)
next
  case (Cons y ys)
  obtain ms where m: "join [0x2C, 0x20] (map py_encode_basestring (y # ys)) @ 0x5D # rest
      = 0x22 # ms"
    by (cases ys) (simp_all add: py_encode_basestring_def)
  have "parse_items (join [0x2C, 0x20] (map py_encode_basestring (x # y # ys)) @ 0x5D # rest)
      = parse_items (py_encode_basestring x @ [0x2C, 0x20] @ 0x22 # ms)"
    using m by simp
  also have "\<dots> = Some (x # y # ys, rest)"
    unfolding parse_items_more using Cons.IH[of y] m by simp
  finally show ?case .
qed

lemma json_loads_dumps: "json_loads (json_dumps lst) = Some lst"
proof (cases lst)
  case Nil
  then show ?thesis
    by (simp add: json_loads_def json_dumps_def skip_ws_def is_ws_def)
next
  case (Cons x xs)
  obtain ms where m: "join [0x2C, 0x20] (map py_encode_basestring (x # xs)) @ [0x5D]
      = 0x22 # ms"
    by (cases xs) (simp_all add: py_encode_basestring_def)
  have "parse_items (0x22 # ms) = Some (x # xs, [])"
    using parse_items_join[of x xs "[]"] m by simp
  then show ?thesis using m
    by (simp add: Cons json_loads_def json_dumps_def skip_ws_nonws is_ws_def skip_ws_def)
qed

section \<open>The call, step by step\<close>

lemma open_wb_Inr:
  "open_wb p fs = Inr fs1 \<Longrightarrow> fs1 = fs\<lparr>files := (files fs)(p \<mapsto> [])\<rparr>"
  by (auto simp: open_wb_def split: if_splits)

lemma convert_ok:
  assumes "open_wb p fs = Inr fs1" and "str_encode_utf8 (json_dumps lst) = Inr data"
  shows "convert_list_to_json lst (Some p) fs
         = (Inr PyNone, fs\<lparr>files := (files fs)(p \<mapsto> data)\<rparr>)"
  using assms open_wb_Inr[OF assms(1)]
  by (simp add: convert_list_to_json_def file_write_def)

lemma convert_encode_error:
  assumes "open_wb p fs = Inr fs1" and "str_encode_utf8 (json_dumps lst) = Inl e"
  shows "convert_list_to_json lst (Some p) fs = (Inl e, fs\<lparr>files := (files fs)(p \<mapsto> [])\<rparr>)"
  using assms open_wb_Inr[OF assms(1)]
  by (simp add: convert_list_to_json_def)

lemma convert_open_error:
  "open_wb p fs = Inl e \<Longrightarrow> convert_list_to_json lst (Some p) fs = (Inl e, fs)"
  by (simp add: convert_list_to_json_def)

lemma convert_Inr_iff:
  "fst (convert_list_to_json lst (Some p) fs) = Inr v \<longleftrightarrow>
     v = PyNone \<and> (\<exists>fs1 data. open_wb p fs = Inr fs1 \<and>
        str_encode_utf8 (json_dumps lst) = Inr data)"
  by (cases "open_wb p fs"; cases "str_encode_utf8 (json_dumps lst)")
     (auto simp: convert_list_to_json_def file_write_def)

lemma open_wb_again:
  "open_wb p fs = Inr fs1 \<Longrightarrow>
   open_wb p (fs\<lparr>files := (files fs)(p \<mapsto> data)\<rparr>)
   = Inr (fs\<lparr>files := (files fs)(p \<mapsto> [])\<rparr>)"
  by (auto simp: open_wb_def dir_exists_def split: if_splits)

section \<open>Which strings the encoder accepts\<close>

lemma utf8_char_Some:
  "is_codepoint c \<Longrightarrow> \<not> is_surrogate c \<Longrightarrow> \<exists>bs. utf8_char c = Some bs"
  by (simp add: utf8_char_def is_codepoint_def)

lemma utf8_char_ascii: "c < 0x80 \<Longrightarrow> utf8_char c = Some [c]"
  by (simp add: utf8_char_def)

lemma str_encode_utf8_bytes:
  "\<forall>c\<in>set s. utf8_char c \<noteq> None \<Longrightarrow> str_encode_utf8 s = Inr (utf8_bytes s)"
  by (induction s) (auto simp: utf8_bytes_def)

lemma str_encode_utf8_Inr:
  "str_encode_utf8 s = Inr data \<Longrightarrow> data = utf8_bytes s"
  by (induction s arbitrary: data) (auto simp: utf8_bytes_def split: option.splits sum.splits)

lemma hexdigit_ascii: "d < 16 \<Longrightarrow> hexdigit d < 0x80"
  by (simp add: hexdigit_def)

lemma set_escape_char: "x \<in> set (escape_char c) \<Longrightarrow> x < 0x80 \<or> x = c"
  by (auto simp: escape_char_def hex4_def hexdigit_ascii split: if_splits)

lemma set_py_encode_basestring:
  "x \<in> set (py_encode_basestring s) \<Longrightarrow> x < 0x80 \<or> x \<in> set s"
  by (auto simp: py_encode_basestring_def dest: set_escape_char)

lemma set_join: "x \<in> set (join sep xs) \<Longrightarrow> x \<in> set sep \<or> (\<exists>y\<in>set xs. x \<in> set y)"
  by (induction sep xs rule: join.induct) auto

lemma set_json_dumps:
  "x \<in> set (json_dumps lst) \<Longrightarrow> x < 0x80 \<or> (\<exists>s\<in>set lst. x \<in> set s)"
  by (auto simp: json_dumps_def dest!: set_join set_py_encode_basestring)

lemma json_dumps_encodable:
  assumes "\<forall>s\<in>set lst. \<forall>c\<in>set s. is_codepoint c \<and> \<not> is_surrogate c"
  shows "str_encode_utf8 (json_dumps lst) = Inr (utf8_bytes (json_dumps lst))"
proof (rule str_encode_utf8_bytes, rule ballI)
  fix x assume "x \<in> set (json_dumps lst)"
  then consider "x < 0x80" | s where "s \<in> set lst" "x \<in> set s"
    using set_json_dumps by blast
  then show "utf8_char x \<noteq> None"
  proof cases
    case 1
    then show ?thesis by (simp add: utf8_char_ascii)
  next
    case 2
    with assms have "is_codepoint x" "\<not> is_surrogate x" by auto
    then show ?thesis using utf8_char_Some by fastforce
  qed
qed

section \<open>The shape of the bytes written\<close>

lemma utf8_bytes_append: "utf8_bytes (a @ b) = utf8_bytes a @ utf8_bytes b"
  by (simp add: utf8_bytes_def)

lemma utf8_bytes_concat: "utf8_bytes (concat xs) = concat (map utf8_bytes xs)"
  by (induction xs) (simp_all add: utf8_bytes_append, simp add: utf8_bytes_def)

lemma utf8_bytes_join:
  "utf8_bytes (join sep xs) = join (utf8_bytes sep) (map utf8_bytes xs)"
  by (induction sep xs rule: join.induct) (simp_all add: utf8_bytes_append, simp add: utf8_bytes_def)

lemma utf8_bytes_Nil: "utf8_bytes [] = []"
  by (simp add: utf8_bytes_def)

lemma utf8_bytes_Cons_ascii: "c < 0x80 \<Longrightarrow> utf8_bytes (c # cs) = c # utf8_bytes cs"
  by (simp add: utf8_bytes_def utf8_char_def)

lemma utf8_bytes_encoded:
  "utf8_bytes (py_encode_basestring s) = [0x22] @ concat (map written_char s) @ [0x22]"
  by (simp add: py_encode_basestring_def utf8_bytes_append utf8_bytes_concat
      utf8_bytes_Cons_ascii utf8_bytes_Nil written_char_def[symmetric] comp_def)

lemma utf8_bytes_json_dumps:
  "utf8_bytes (json_dumps lst) =
     [0x5B] @ join [0x2C, 0x20] (map (\<lambda>s. [0x22] @ concat (map written_char s) @ [0x22]) lst)
     @ [0x5D]"
proof -
  have "map utf8_bytes (map py_encode_basestring lst)
        = map (\<lambda>s. [0x22] @ concat (map written_char s) @ [0x22]) lst"
    by (simp add: utf8_bytes_encoded)
  then have "utf8_bytes (join [0x2C, 0x20] (map py_encode_basestring lst))
        = join [0x2C, 0x20] (map (\<lambda>s. [0x22] @ concat (map written_char s) @ [0x22]) lst)"
    by (simp only: utf8_bytes_join) (simp add: utf8_bytes_Cons_ascii utf8_bytes_Nil)
  then show ?thesis
    by (simp add: json_dumps_def utf8_bytes_append utf8_bytes_Cons_ascii utf8_bytes_Nil)
qed

lemma written_char_nonascii:
  assumes "0x80 \<le> c" and "utf8_char c = Some bs"
  shows "written_char c = bs"
  using assms by (simp add: written_char_def escape_char_def utf8_bytes_def)

lemma utf8_char_high:
  assumes "0x80 \<le> c" and "utf8_char c = Some bs"
  shows "\<forall>b\<in>set bs. 0x80 \<le> b"
  using assms by (auto simp: utf8_char_def split: if_splits)

lemma sublist_concat_map: "c \<in> set s \<Longrightarrow> sublist (f c) (concat (map f s))"
proof -
  assume "c \<in> set s"
  then obtain s1 s2 where "s = s1 @ c # s2" by (auto simp: in_set_conv_decomp)
  then have "concat (map f s) = concat (map f s1) @ f c @ concat (map f s2)" by simp
  then show ?thesis unfolding sublist_def by blast
qed

lemma sublist_join: "x \<in> set xs \<Longrightarrow> sublist x (join sep xs)"
proof (induction sep xs rule: join.induct)
  case (1 sep)
  then show ?case by simp
next
  case (2 sep y)
  then show ?case by simp
next
  case (3 sep y z zs)
  show ?case
  proof (cases "x = y")
    case True
    then show ?thesis by (simp add: sublist_def) (metis append_Nil)
  next
    case False
    with 3 have "sublist x (join sep (z # zs))" by simp
    then obtain ps ss where "join sep (z # zs) = ps @ x @ ss" unfolding sublist_def by blast
    then have "join sep (y # z # zs) = (y @ sep @ ps) @ x @ ss" by simp
    then show ?thesis unfolding sublist_def by blast
  qed
qed

lemma sublist_written_char:
  assumes "s \<in> set lst" and "c \<in> set s"
  shows "sublist (written_char c) (utf8_bytes (json_dumps lst))"
proof -
  let ?item = "\<lambda>s. [0x22] @ concat (map written_char s) @ [0x22]"
  have "sublist (written_char c) (concat (map written_char s))"
    by (rule sublist_concat_map[OF assms(2)])
  then have "sublist (written_char c) (?item s)"
    unfolding sublist_def by (metis append.assoc)
  moreover have "sublist (?item s) (join [0x2C, 0x20] (map ?item lst))"
    using assms(1) by (intro sublist_join) simp
  ultimately have "sublist (written_char c) (join [0x2C, 0x20] (map ?item lst))"
    using sublist_order.order_trans by blast
  then show ?thesis
    unfolding utf8_bytes_json_dumps sublist_def by (metis append.assoc)
qed

lemma py_str_ascii: "x \<in> set (py_str s) \<Longrightarrow> x < 0x100"
  by (auto simp: py_str_def)

section \<open>The claims\<close>

text \<open>
  C4. Called with the empty sequence, on a destination that can be opened for writing,
  \<open>convert_list_to_json\<close> succeeds and leaves exactly the two bytes \<open>0x5B 0x5D\<close>,
  the text \<open>[]\<close>, in the file.
\<close>

theorem empty_sequence_writes_brackets:
  assumes "open_wb p fs = Inr fs1"
  shows "fst (convert_list_to_json [] (Some p) fs) = Inr PyNone \<and>
         files (snd (convert_list_to_json [] (Some p) fs)) p = Some [0x5B, 0x5D]"
proof -
  have "str_encode_utf8 (json_dumps []) = Inr [0x5B, 0x5D]"
    by (simp add: json_dumps_def utf8_char_def)
  from convert_ok[OF assms this] show ?thesis by simp
qed

theorem empty_sequence_writes_brackets_witness:
  "open_wb ''out.json'' empty_fs = Inr (empty_fs\<lparr>files := [''out.json'' \<mapsto> []]\<rparr>) \<and>
   fst (convert_list_to_json [] (Some ''out.json'') empty_fs) = Inr PyNone \<and>
   files (snd (convert_list_to_json [] (Some ''out.json'') empty_fs)) ''out.json''
     = Some [0x5B, 0x5D]"
proof -
  have h: "open_wb ''out.json'' empty_fs = Inr (empty_fs\<lparr>files := [''out.json'' \<mapsto> []]\<rparr>)"
    by (simp add: open_wb_def dirname_def dir_exists_def empty_fs_def)
  from h empty_sequence_writes_brackets[OF h] show ?thesis by simp
qed

text \<open>
  C5. With the input \<open>["Afghanistan", "Albania"]\<close> and the destination \<open>out.json\<close>
  (which can be opened for writing), the call succeeds and the file holds exactly the
  text \<open>["Afghanistan", "Albania"]\<close>: its bytes are the ASCII codes of that text, and
  decoding them as UTF-8 gives the text back.
\<close>

theorem afghanistan_albania_file_contents:
  assumes "open_wb ''out.json'' fs = Inr fs1"
  shows "fst (convert_list_to_json [py_str ''Afghanistan'', py_str ''Albania'']
                (Some ''out.json'') fs) = Inr PyNone \<and>
         files (snd (convert_list_to_json [py_str ''Afghanistan'', py_str ''Albania'']
                (Some ''out.json'') fs)) ''out.json''
           = Some ([0x5B, 0x22] @ py_str ''Afghanistan'' @ [0x22, 0x2C, 0x20, 0x22]
                   @ py_str ''Albania'' @ [0x22, 0x5D]) \<and>
         bytes_decode_utf8 ([0x5B, 0x22] @ py_str ''Afghanistan'' @ [0x22, 0x2C, 0x20, 0x22]
                   @ py_str ''Albania'' @ [0x22, 0x5D])
           = Some ([0x5B, 0x22] @ py_str ''Afghanistan'' @ [0x22, 0x2C, 0x20, 0x22]
                   @ py_str ''Albania'' @ [0x22, 0x5D])"
proof -
  have j: "json_dumps [py_str ''Afghanistan'', py_str ''Albania'']
        = [0x5B, 0x22] @ py_str ''Afghanistan'' @ [0x22, 0x2C, 0x20, 0x22]
          @ py_str ''Albania'' @ [0x22, 0x5D]"
    by (simp add: json_dumps_def py_encode_basestring_def escape_char_def py_str_def)
  have e: "str_encode_utf8 (json_dumps [py_str ''Afghanistan'', py_str ''Albania''])
        = Inr ([0x5B, 0x22] @ py_str ''Afghanistan'' @ [0x22, 0x2C, 0x20, 0x22]
               @ py_str ''Albania'' @ [0x22, 0x5D])"
    unfolding j by (simp add: py_str_def utf8_char_def)
  from convert_ok[OF assms e] decode_encode_utf8[OF e] show ?thesis
    unfolding j by simp
qed

theorem afghanistan_albania_file_contents_witness:
  "open_wb ''out.json'' empty_fs = Inr (empty_fs\<lparr>files := [''out.json'' \<mapsto> []]\<rparr>) \<and>
   files (snd (convert_list_to_json [py_str ''Afghanistan'', py_str ''Albania'']
                (Some ''out.json'') empty_fs)) ''out.json''
     = Some [91, 34, 65, 102, 103, 104, 97, 110, 105, 115, 116, 97, 110, 34, 44, 32,
             34, 65, 108, 98, 97, 110, 105, 97, 34, 93]"
proof -
  have h: "open_wb ''out.json'' empty_fs = Inr (empty_fs\<lparr>files := [''out.json'' \<mapsto> []]\<rparr>)"
    by (simp add: open_wb_def dirname_def dir_exists_def empty_fs_def)
  from h afghanistan_albania_file_contents[OF h] show ?thesis by (simp add: py_str_def)
qed

text \<open>
  C7. When the directory part of the destination does not exist, the call fails with the
  file-system error \<open>FileNotFoundError\<close> and the file system is left as it was: no file
  is created.
\<close>

theorem missing_directory_fails_unchanged:
  assumes "\<not> dir_exists fs (dirname p)"
  shows "convert_list_to_json lst (Some p) fs = (Inl FileNotFoundError, fs)"
  using assms by (simp add: convert_list_to_json_def open_wb_def)

theorem missing_directory_fails_unchanged_witness:
  "\<not> dir_exists empty_fs (dirname ''nodir/out.json'') \<and>
   convert_list_to_json [py_str ''Afghanistan''] (Some ''nodir/out.json'') empty_fs
     = (Inl FileNotFoundError, empty_fs) \<and>
   files empty_fs ''nodir/out.json'' = None"
proof -
  have h: "\<not> dir_exists empty_fs (dirname ''nodir/out.json'')"
    by (simp add: dirname_def dir_exists_def empty_fs_def)
  from h missing_directory_fails_unchanged[OF h] show ?thesis by (simp add: empty_fs_def)
qed

text \<open>
  C8. Called without a destination, the function behaves as when called with the
  destination \<open>countries.json\<close>; and whenever a call returns, with or without the
  argument, the value returned is \<open>None\<close>.
\<close>

theorem default_destination_and_no_return_value:
  "convert_list_to_json lst None fs = convert_list_to_json lst (Some ''countries.json'') fs \<and>
   (\<forall>v. fst (convert_list_to_json lst dest fs) = Inr v \<longrightarrow> v = PyNone)"
proof -
  have "v = PyNone" if "fst (convert_list_to_json lst dest fs) = Inr v" for v
    using that
    by (auto simp: convert_list_to_json_def file_write_def Let_def split: sum.splits)
  then show ?thesis by (simp add: convert_list_to_json_def)
qed

theorem default_destination_and_no_return_value_witness:
  "fst (convert_list_to_json [py_str ''Albania''] None empty_fs) = Inr PyNone \<and>
   convert_list_to_json [py_str ''Albania''] None empty_fs
     = convert_list_to_json [py_str ''Albania''] (Some ''countries.json'') empty_fs \<and>
   files (snd (convert_list_to_json [py_str ''Albania''] None empty_fs)) ''countries.json''
     = Some [91, 34, 65, 108, 98, 97, 110, 105, 97, 34, 93]"
proof -
  have h: "open_wb ''countries.json'' empty_fs
           = Inr (empty_fs\<lparr>files := [''countries.json'' \<mapsto> []]\<rparr>)"
    by (simp add: open_wb_def dirname_def dir_exists_def empty_fs_def)
  have e: "str_encode_utf8 (json_dumps [py_str ''Albania''])
           = Inr [91, 34, 65, 108, 98, 97, 110, 105, 97, 34, 93]"
    by (simp add: json_dumps_def py_encode_basestring_def escape_char_def py_str_def
        utf8_char_def)
  have c: "convert_list_to_json [py_str ''Albania''] (Some ''countries.json'') empty_fs
           = (Inr PyNone, empty_fs\<lparr>files := (files empty_fs)(''countries.json'' \<mapsto>
                [91, 34, 65, 108, 98, 97, 110, 105, 97, 34, 93])\<rparr>)"
    by (rule convert_ok[OF h e])
  from default_destination_and_no_return_value
         [of "[py_str ''Albania'']" empty_fs None]
  show ?thesis unfolding c by simp
qed

text \<open>
  C9. A call changes nothing but the file at the destination: every other path has the
  contents it had, and the directories and the write permissions are as before. (The
  file system is the whole state the function acts on; the argument \<open>lst\<close> is only
  read.)
\<close>

theorem only_destination_changes:
  "dirs (snd (convert_list_to_json lst (Some p) fs)) = dirs fs \<and>
   readonly (snd (convert_list_to_json lst (Some p) fs)) = readonly fs \<and>
   (\<forall>q. q \<noteq> p \<longrightarrow> files (snd (convert_list_to_json lst (Some p) fs)) q = files fs q)"
proof (cases "open_wb p fs")
  case (Inl e)
  then show ?thesis by (simp add: convert_open_error)
next
  case (Inr fs1)
  show ?thesis
  proof (cases "str_encode_utf8 (json_dumps lst)")
    case (Inl e)
    from convert_encode_error[OF Inr Inl] show ?thesis by simp
  next
    case (Inr data)
    from convert_ok[OF \<open>open_wb p fs = Inr fs1\<close> Inr] show ?thesis by simp
  qed
qed

theorem only_destination_changes_witness:
  "''other.json'' \<noteq> ''out.json'' \<and>
   fst (convert_list_to_json [] (Some ''out.json'')
          (empty_fs\<lparr>files := [''other.json'' \<mapsto> [1, 2, 3]]\<rparr>)) = Inr PyNone \<and>
   files (snd (convert_list_to_json [] (Some ''out.json'')
          (empty_fs\<lparr>files := [''other.json'' \<mapsto> [1, 2, 3]]\<rparr>))) ''other.json''
     = Some [1, 2, 3]"
proof -
  let ?fs = "empty_fs\<lparr>files := [''other.json'' \<mapsto> [1, 2, 3]]\<rparr>"
  have h: "open_wb ''out.json'' ?fs = Inr (?fs\<lparr>files := (files ?fs)(''out.json'' \<mapsto> [])\<rparr>)"
    by (simp add: open_wb_def dirname_def dir_exists_def empty_fs_def)
  have e: "str_encode_utf8 (json_dumps []) = Inr [0x5B, 0x5D]"
    by (simp add: json_dumps_def utf8_char_def)
  have s: "fst (convert_list_to_json [] (Some ''out.json'') ?fs) = Inr PyNone"
    using convert_ok[OF h e] by simp
  from only_destination_changes[of "[]" "''out.json''" ?fs] s show ?thesis by simp
qed

text \<open>
  C6. Two calls on the same destination leave the file system that the second call
  alone would have left, for every pair of sequences and every path: nothing of the
  first call remains. When the destination can be opened for writing and \<open>S2\<close> has
  an encoding, the second call succeeds and the file holds exactly the encoding of
  \<open>S2\<close>, whatever the lengths of the two encodings.
\<close>

theorem second_call_overwrites:
  "snd (convert_list_to_json S2 (Some p) (snd (convert_list_to_json S1 (Some p) fs)))
     = snd (convert_list_to_json S2 (Some p) fs) \<and>
   (open_wb p fs = Inr fs1 \<and> str_encode_utf8 (json_dumps S2) = Inr data2 \<longrightarrow>
      fst (convert_list_to_json S2 (Some p) (snd (convert_list_to_json S1 (Some p) fs)))
        = Inr PyNone \<and>
      files (snd (convert_list_to_json S2 (Some p)
               (snd (convert_list_to_json S1 (Some p) fs)))) p = Some data2)"
proof (cases "open_wb p fs")
  case (Inl e)
  then show ?thesis by (simp add: convert_open_error)
next
  case (Inr fs0)
  note o = Inr
  obtain d1 where first: "convert_list_to_json S1 (Some p) fs
      = (fst (convert_list_to_json S1 (Some p) fs), fs\<lparr>files := (files fs)(p \<mapsto> d1)\<rparr>)"
  proof (cases "str_encode_utf8 (json_dumps S1)")
    case (Inl e)
    from convert_encode_error[OF o Inl] that[of "[]"] show ?thesis by simp
  next
    case (Inr data1)
    from convert_ok[OF o Inr] that[of data1] show ?thesis by simp
  qed
  let ?mid = "fs\<lparr>files := (files fs)(p \<mapsto> d1)\<rparr>"
  have mid: "snd (convert_list_to_json S1 (Some p) fs) = ?mid"
    by (subst first) simp
  note o' = open_wb_again[OF o, of d1]
  show ?thesis
  proof (cases "str_encode_utf8 (json_dumps S2)")
    case (Inl e)
    from convert_encode_error[OF o' Inl] convert_encode_error[OF o Inl] show ?thesis
      unfolding mid by (simp add: Inl)
  next
    case (Inr d2)
    from convert_ok[OF o' Inr] convert_ok[OF o Inr] show ?thesis
      unfolding mid by (simp add: Inr)
  qed
qed

theorem second_call_overwrites_witness:
  "open_wb ''out.json'' empty_fs = Inr (empty_fs\<lparr>files := [''out.json'' \<mapsto> []]\<rparr>) \<and>
   str_encode_utf8 (json_dumps []) = Inr [0x5B, 0x5D] \<and>
   files (snd (convert_list_to_json [py_str ''Afghanistan'', py_str ''Albania'']
                 (Some ''out.json'') empty_fs)) ''out.json''
     = Some [91, 34, 65, 102, 103, 104, 97, 110, 105, 115, 116, 97, 110, 34, 44, 32,
             34, 65, 108, 98, 97, 110, 105, 97, 34, 93] \<and>
   fst (convert_list_to_json [] (Some ''out.json'')
          (snd (convert_list_to_json [py_str ''Afghanistan'', py_str ''Albania'']
                  (Some ''out.json'') empty_fs))) = Inr PyNone \<and>
   files (snd (convert_list_to_json [] (Some ''out.json'')
            (snd (convert_list_to_json [py_str ''Afghanistan'', py_str ''Albania'']
                    (Some ''out.json'') empty_fs)))) ''out.json'' = Some [0x5B, 0x5D]"
proof -
  have h: "open_wb ''out.json'' empty_fs = Inr (empty_fs\<lparr>files := [''out.json'' \<mapsto> []]\<rparr>)"
    by (simp add: open_wb_def dirname_def dir_exists_def empty_fs_def)
  have e: "str_encode_utf8 (json_dumps [py_str ''Afghanistan'', py_str ''Albania''])
     = Inr [91, 34, 65, 102, 103, 104, 97, 110, 105, 115, 116, 97, 110, 34, 44, 32,
            34, 65, 108, 98, 97, 110, 105, 97, 34, 93]"
    by (simp add: json_dumps_def py_encode_basestring_def escape_char_def py_str_def
        utf8_char_def)
  have a: "files (snd (convert_list_to_json [py_str ''Afghanistan'', py_str ''Albania'']
                 (Some ''out.json'') empty_fs)) ''out.json''
     = Some [91, 34, 65, 102, 103, 104, 97, 110, 105, 115, 116, 97, 110, 34, 44, 32,
             34, 65, 108, 98, 97, 110, 105, 97, 34, 93]"
    using convert_ok[OF h e] by simp
  have b: "str_encode_utf8 (json_dumps []) = Inr [0x5B, 0x5D]"
    by (simp add: json_dumps_def utf8_char_def)
  from h b a
    second_call_overwrites[of "[]" "''out.json''"
      "[py_str ''Afghanistan'', py_str ''Albania'']" empty_fs
      "empty_fs\<lparr>files := [''out.json'' \<mapsto> []]\<rparr>" "[0x5B, 0x5D]"]
  show ?thesis by blast
qed

text \<open>
  C10. The call on the last line is outside the \<open>__main__\<close> guard and the list is
  bound inside it. Executed under any other module name (an import), the module raises
  \<open>NameError\<close> for \<open>countries\<close> and the file system is untouched. Executed as
  \<open>__main__\<close>, it is the call of \<open>convert_list_to_json\<close> on the list of countries
  with the destination \<open>exercises/countries.json\<close>; where that destination can be opened
  for writing, the run succeeds and the file reads back as the list.
\<close>

theorem import_raises_name_error:
  "(name \<noteq> ''__main__'' \<longrightarrow> run_module name fs = (Inl (NameError ''countries''), fs)) \<and>
   run_module ''__main__'' fs
     = convert_list_to_json countries (Some ''exercises/countries.json'') fs \<and>
   (\<forall>fs1. open_wb ''exercises/countries.json'' fs = Inr fs1 \<longrightarrow>
      fst (run_module ''__main__'' fs) = Inr PyNone \<and>
      read_json ''exercises/countries.json'' (snd (run_module ''__main__'' fs))
        = Some countries)"
proof -
  have run: "run_module ''__main__'' fs
      = convert_list_to_json countries (Some ''exercises/countries.json'') fs"
    by (simp add: run_module_def module_globals_def)
  have imp: "run_module name fs = (Inl (NameError ''countries''), fs)"
    if "name \<noteq> ''__main__''"
    using that by (simp add: run_module_def module_globals_def)
  have small: "list_all (\<lambda>c. c < 0x100) (py_str s)" for s
    by (simp add: list_all_iff py_str_def)
  have "list_all (list_all (\<lambda>c. c < 0x100)) countries"
    unfolding countries_def by (simp add: small)
  then have "\<forall>s\<in>set countries. \<forall>c\<in>set s. c < 0x100"
    by (simp add: list_all_iff)
  then have enc: "\<forall>s\<in>set countries. \<forall>c\<in>set s. is_codepoint c \<and> \<not> is_surrogate c"
    by (fastforce simp: is_codepoint_def is_surrogate_def)
  have ok: "fst (run_module ''__main__'' fs) = Inr PyNone \<and>
      read_json ''exercises/countries.json'' (snd (run_module ''__main__'' fs))
        = Some countries"
    if o: "open_wb ''exercises/countries.json'' fs = Inr fs1" for fs1
  proof -
    note e = json_dumps_encodable[OF enc]
    from convert_ok[OF o e] decode_encode_utf8[OF e] show ?thesis
      unfolding run by (simp add: read_json_def json_loads_dumps)
  qed
  from run imp ok show ?thesis by blast
qed

theorem import_raises_name_error_witness:
  "''convert_list_to_json'' \<noteq> ''__main__'' \<and>
   run_module ''convert_list_to_json'' (empty_fs\<lparr>dirs := {''exercises''}\<rparr>)
     = (Inl (NameError ''countries''), empty_fs\<lparr>dirs := {''exercises''}\<rparr>) \<and>
   open_wb ''exercises/countries.json'' (empty_fs\<lparr>dirs := {''exercises''}\<rparr>)
     = Inr (empty_fs\<lparr>dirs := {''exercises''}, files := [''exercises/countries.json'' \<mapsto> []]\<rparr>) \<and>
   fst (run_module ''__main__'' (empty_fs\<lparr>dirs := {''exercises''}\<rparr>)) = Inr PyNone \<and>
   read_json ''exercises/countries.json''
     (snd (run_module ''__main__'' (empty_fs\<lparr>dirs := {''exercises''}\<rparr>))) = Some countries"
proof -
  let ?fs = "empty_fs\<lparr>dirs := {''exercises''}\<rparr>"
  have h: "open_wb ''exercises/countries.json'' ?fs
     = Inr (empty_fs\<lparr>dirs := {''exercises''}, files := [''exercises/countries.json'' \<mapsto> []]\<rparr>)"
    by (simp add: open_wb_def dirname_def dir_exists_def empty_fs_def)
  have n: "''convert_list_to_json'' \<noteq> ''__main__''" by simp
  from n h import_raises_name_error[of "''convert_list_to_json''" ?fs] show ?thesis
    by blast
qed

lemma str_encode_utf8_chars:
  "str_encode_utf8 s = Inr data \<Longrightarrow> c \<in> set s \<Longrightarrow> utf8_char c \<noteq> None"
  by (induction s arbitrary: data) (auto split: option.splits sum.splits)

text \<open>
  What a successful call leaves in the file: the brackets, the quoted items and the
  separators around the bytes each character contributes.
\<close>

lemma written_shape_on_success:
  assumes "fst (convert_list_to_json lst (Some p) fs) = Inr v"
  shows "files (snd (convert_list_to_json lst (Some p) fs)) p =
           Some ([0x5B]
                 @ join [0x2C, 0x20]
                     (map (\<lambda>s. [0x22] @ concat (map written_char s) @ [0x22]) lst)
                 @ [0x5D]) \<and>
         (\<forall>s\<in>set lst. \<forall>c\<in>set s. 0x80 \<le> c \<longrightarrow>
            escape_char c = [c] \<and>
            utf8_char c = Some (written_char c) \<and>
            (\<forall>b\<in>set (written_char c). 0x80 \<le> b) \<and>
            (\<exists>data. files (snd (convert_list_to_json lst (Some p) fs)) p = Some data \<and>
                    sublist (written_char c) data))"
proof -
  from assms obtain fs1 data where
    o: "open_wb p fs = Inr fs1" and e: "str_encode_utf8 (json_dumps lst) = Inr data"
    unfolding convert_Inr_iff by blast
  have d: "data = utf8_bytes (json_dumps lst)" by (rule str_encode_utf8_Inr[OF e])
  have f: "files (snd (convert_list_to_json lst (Some p) fs)) p
           = Some (utf8_bytes (json_dumps lst))"
    using convert_ok[OF o e] d by simp
  have chars: "escape_char c = [c] \<and> utf8_char c = Some (written_char c) \<and>
        (\<forall>b\<in>set (written_char c). 0x80 \<le> b) \<and>
        sublist (written_char c) (utf8_bytes (json_dumps lst))"
    if s: "s \<in> set lst" and c: "c \<in> set s" and hi: "0x80 \<le> c" for s c
  proof -
    have esc: "escape_char c = [c]" using hi by (simp add: escape_char_def)
    have "c \<in> set (py_encode_basestring s)"
      using c esc by (force simp: py_encode_basestring_def)
    moreover have "sublist (py_encode_basestring s)
                     (join [0x2C, 0x20] (map py_encode_basestring lst))"
      using s by (intro sublist_join) simp
    ultimately have "c \<in> set (join [0x2C, 0x20] (map py_encode_basestring lst))"
      using set_mono_sublist by blast
    then have "c \<in> set (json_dumps lst)" by (simp add: json_dumps_def)
    with e have "utf8_char c \<noteq> None" by (rule str_encode_utf8_chars)
    then obtain bs where bs: "utf8_char c = Some bs" by blast
    have w: "written_char c = bs" by (rule written_char_nonascii[OF hi bs])
    from utf8_char_high[OF hi bs] sublist_written_char[OF s c] esc bs w
    show ?thesis by simp
  qed
  show ?thesis
    unfolding f utf8_bytes_json_dumps[symmetric] using chars by blast
qed

text \<open>
  C3, as it is written, fails: a sequence may hold a non-ASCII character next to a
  surrogate code point. The strict UTF-8 encoder then raises \<open>UnicodeEncodeError\<close>
  after the file was opened, nothing is written, and the (empty) file holds the UTF-8
  encoding of no character.
\<close>

theorem surrogate_beside_non_ascii_writes_nothing:
  "is_codepoint 0xDC80 \<and>
   (0x80::nat) \<le> 0xC5 \<and>
   utf8_char 0xC5 = Some [0xC3, 0x85] \<and>
   fst (convert_list_to_json [[0xC5], [0xDC80]] (Some ''out.json'') empty_fs)
     = Inl UnicodeEncodeError \<and>
   files (snd (convert_list_to_json [[0xC5], [0xDC80]] (Some ''out.json'') empty_fs))
     ''out.json'' = Some [] \<and>
   \<not> sublist [0xC3, 0x85] ([] :: nat list)"
proof -
  have h: "open_wb ''out.json'' empty_fs = Inr (empty_fs\<lparr>files := [''out.json'' \<mapsto> []]\<rparr>)"
    by (simp add: open_wb_def dirname_def dir_exists_def empty_fs_def)
  have e: "str_encode_utf8 (json_dumps [[0xC5], [0xDC80]]) = Inl UnicodeEncodeError"
    by (simp add: json_dumps_def py_encode_basestring_def escape_char_def utf8_char_def
        is_surrogate_def)
  show ?thesis
    unfolding convert_encode_error[OF h e]
    by (simp add: is_codepoint_def utf8_char_def)
qed

text \<open>
  C3, amended. For every sequence of strings none of whose characters is a surrogate
  code point, and every destination that can be opened for writing, the call succeeds
  and the file holds the brackets, the quoted items and the separators \<open>, \<close> around
  the bytes each character contributes; a non-ASCII character (from U+0080 on) of an
  element is not escaped by the JSON encoder and contributes exactly its UTF-8
  encoding, whose bytes are all \<open>0x80\<close> or above (so neither a backslash nor any other
  part of a \<^verbatim>\<open>\uXXXX\<close> escape), and these bytes occur in the file.
\<close>

theorem non_ascii_written_raw_without_surrogates:
  assumes "\<forall>s\<in>set lst. \<forall>c\<in>set s. is_codepoint c \<and> \<not> is_surrogate c"
    and "open_wb p fs = Inr fs1"
  shows "fst (convert_list_to_json lst (Some p) fs) = Inr PyNone \<and>
         files (snd (convert_list_to_json lst (Some p) fs)) p =
           Some ([0x5B]
                 @ join [0x2C, 0x20]
                     (map (\<lambda>s. [0x22] @ concat (map written_char s) @ [0x22]) lst)
                 @ [0x5D]) \<and>
         (\<forall>s\<in>set lst. \<forall>c\<in>set s. 0x80 \<le> c \<longrightarrow>
            escape_char c = [c] \<and>
            utf8_char c = Some (written_char c) \<and>
            (\<forall>b\<in>set (written_char c). 0x80 \<le> b) \<and>
            (\<exists>data. files (snd (convert_list_to_json lst (Some p) fs)) p = Some data \<and>
                    sublist (written_char c) data))"
proof -
  have ok: "fst (convert_list_to_json lst (Some p) fs) = Inr PyNone"
    using convert_ok[OF assms(2) json_dumps_encodable[OF assms(1)]] by simp
  from ok written_shape_on_success[OF ok] show ?thesis by blast
qed

theorem non_ascii_written_raw_without_surrogates_witness:
  "list_all (list_all (\<lambda>c. is_codepoint c \<and> \<not> is_surrogate c))
     [[0xC5] @ py_str ''land Islands'', py_str ''C'' @ [0xF4] @ py_str ''te d'Ivoire'',
      py_str ''Cura'' @ [0xE7] @ py_str ''ao''] \<and>
   open_wb ''out.json'' empty_fs = Inr (empty_fs\<lparr>files := [''out.json'' \<mapsto> []]\<rparr>) \<and>
   fst (convert_list_to_json
          [[0xC5] @ py_str ''land Islands'', py_str ''C'' @ [0xF4] @ py_str ''te d'Ivoire'',
           py_str ''Cura'' @ [0xE7] @ py_str ''ao'']
          (Some ''out.json'') empty_fs) = Inr PyNone \<and>
   [0xC5] @ py_str ''land Islands''
     \<in> set [[0xC5] @ py_str ''land Islands'', py_str ''C'' @ [0xF4] @ py_str ''te d'Ivoire'',
            py_str ''Cura'' @ [0xE7] @ py_str ''ao''] \<and>
   0xC5 \<in> set ([0xC5] @ py_str ''land Islands'') \<and>
   (0x80::nat) \<le> 0xC5 \<and>
   written_char 0xC5 = [0xC3, 0x85] \<and>
   sublist [0xC3, 0x85]
     [91 :: nat, 34, 195, 133, 108, 97, 110, 100, 32, 73, 115, 108, 97, 110, 100, 115, 34,
      44, 32, 34, 67, 195, 180, 116, 101, 32, 100, 39, 73, 118, 111, 105, 114, 101, 34,
      44, 32, 34, 67, 117, 114, 97, 195, 167, 97, 111, 34, 93] \<and>
   files (snd (convert_list_to_json
          [[0xC5] @ py_str ''land Islands'', py_str ''C'' @ [0xF4] @ py_str ''te d'Ivoire'',
           py_str ''Cura'' @ [0xE7] @ py_str ''ao'']
          (Some ''out.json'') empty_fs)) ''out.json''
     = Some [91, 34, 195, 133, 108, 97, 110, 100, 32, 73, 115, 108, 97, 110, 100, 115, 34,
             44, 32, 34, 67, 195, 180, 116, 101, 32, 100, 39, 73, 118, 111, 105, 114, 101, 34,
             44, 32, 34, 67, 117, 114, 97, 195, 167, 97, 111, 34, 93]"
proof -
  let ?lst = "[[0xC5] @ py_str ''land Islands'', py_str ''C'' @ [0xF4] @ py_str ''te d'Ivoire'',
               py_str ''Cura'' @ [0xE7] @ py_str ''ao'']"
  let ?bytes = "[91, 34, 195, 133, 108, 97, 110, 100, 32, 73, 115, 108, 97, 110, 100, 115, 34,
      44, 32, 34, 67, 195, 180, 116, 101, 32, 100, 39, 73, 118, 111, 105, 114, 101, 34,
      44, 32, 34, 67, 117, 114, 97, 195, 167, 97, 111, 34, 93 :: nat]"
  have g: "\<forall>s\<in>set ?lst. \<forall>c\<in>set s. is_codepoint c \<and> \<not> is_surrogate c"
    by (simp add: is_codepoint_def is_surrogate_def py_str_def)
  have g': "list_all (list_all (\<lambda>c. is_codepoint c \<and> \<not> is_surrogate c)) ?lst"
    using g unfolding list_all_iff .
  have h: "open_wb ''out.json'' empty_fs = Inr (empty_fs\<lparr>files := [''out.json'' \<mapsto> []]\<rparr>)"
    by (simp add: open_wb_def dirname_def dir_exists_def empty_fs_def)
  have e: "str_encode_utf8 (json_dumps ?lst) = Inr ?bytes"
    by (simp add: json_dumps_def py_encode_basestring_def escape_char_def py_str_def
        utf8_char_def is_surrogate_def)
  have f: "files (snd (convert_list_to_json ?lst (Some ''out.json'') empty_fs)) ''out.json''
           = Some ?bytes"
    using convert_ok[OF h e] by simp
  note t = non_ascii_written_raw_without_surrogates[OF g h]
  have a: "fst (convert_list_to_json ?lst (Some ''out.json'') empty_fs) = Inr PyNone"
    using t by blast
  have m: "[0xC5] @ py_str ''land Islands'' \<in> set ?lst" by simp
  have n: "0xC5 \<in> set ([0xC5] @ py_str ''land Islands'')" by simp
  have k: "(0x80::nat) \<le> 0xC5" by simp
  from t have "\<forall>s\<in>set ?lst. \<forall>c\<in>set s. 0x80 \<le> c \<longrightarrow>
            escape_char c = [c] \<and>
            utf8_char c = Some (written_char c) \<and>
            (\<forall>b\<in>set (written_char c). 0x80 \<le> b) \<and>
            (\<exists>data. files (snd (convert_list_to_json ?lst (Some ''out.json'') empty_fs))
                       ''out.json'' = Some data \<and>
                    sublist (written_char c) data)"
    by blast
  from this[rule_format, OF m n k]
  have u: "utf8_char 0xC5 = Some (written_char 0xC5)"
    and sb: "\<exists>data. files (snd (convert_list_to_json ?lst (Some ''out.json'') empty_fs))
                       ''out.json'' = Some data \<and> sublist (written_char 0xC5) data"
    by blast+
  from u have w: "written_char 0xC5 = [0xC3, 0x85]" by (simp add: utf8_char_def)
  from sb have sl: "sublist [0xC3, 0x85] ?bytes" unfolding f w by simp
  show ?thesis by (intro conjI) (fact g' h a m n k w sl f)+
qed

text \<open>
  C1, as it is written, fails: a \<open>str\<close> may hold a surrogate code point, the strict
  UTF-8 encoder rejects it, the call raises \<open>UnicodeEncodeError\<close> after the file was
  opened, and the (empty) file does not read back as the input.
\<close>

theorem surrogate_breaks_roundtrip:
  "is_codepoint 0xD800 \<and>
   fst (convert_list_to_json [[0xD800]] (Some ''out.json'') empty_fs)
     = Inl UnicodeEncodeError \<and>
   files (snd (convert_list_to_json [[0xD800]] (Some ''out.json'') empty_fs)) ''out.json''
     = Some [] \<and>
   read_json ''out.json'' (snd (convert_list_to_json [[0xD800]] (Some ''out.json'') empty_fs))
     \<noteq> Some [[0xD800]]"
proof -
  have h: "open_wb ''out.json'' empty_fs = Inr (empty_fs\<lparr>files := [''out.json'' \<mapsto> []]\<rparr>)"
    by (simp add: open_wb_def dirname_def dir_exists_def empty_fs_def)
  have e: "str_encode_utf8 (json_dumps [[0xD800]]) = Inl UnicodeEncodeError"
    by (simp add: json_dumps_def py_encode_basestring_def escape_char_def utf8_char_def
        is_surrogate_def)
  show ?thesis
    unfolding convert_encode_error[OF h e]
    by (simp add: is_codepoint_def read_json_def bytes_decode_utf8_Nil json_loads_def
        skip_ws_def)
qed

text \<open>
  C1, amended. For every sequence of strings none of whose characters is a surrogate
  code point, and every destination that can be opened for writing, the call succeeds,
  and reading the file, decoding it as UTF-8 and parsing it as JSON gives the sequence
  back, in the same order; quotes, backslashes, control characters and non-ASCII
  characters included.
\<close>

theorem roundtrip_without_surrogates:
  assumes "\<forall>s\<in>set lst. \<forall>c\<in>set s. is_codepoint c \<and> \<not> is_surrogate c"
    and "open_wb p fs = Inr fs1"
  shows "fst (convert_list_to_json lst (Some p) fs) = Inr PyNone \<and>
         read_json p (snd (convert_list_to_json lst (Some p) fs)) = Some lst"
proof -
  note e = json_dumps_encodable[OF assms(1)]
  from convert_ok[OF assms(2) e] decode_encode_utf8[OF e] show ?thesis
    by (simp add: read_json_def json_loads_dumps)
qed

theorem roundtrip_without_surrogates_witness:
  "list_all (list_all (\<lambda>c. is_codepoint c \<and> \<not> is_surrogate c))
     [[0x22, 0x5C, 0xC5, 0x1F600, 0x0A, 0x1F], [], py_str ''Albania''] \<and>
   open_wb ''out.json'' empty_fs = Inr (empty_fs\<lparr>files := [''out.json'' \<mapsto> []]\<rparr>) \<and>
   fst (convert_list_to_json [[0x22, 0x5C, 0xC5, 0x1F600, 0x0A, 0x1F], [], py_str ''Albania'']
          (Some ''out.json'') empty_fs) = Inr PyNone \<and>
   read_json ''out.json''
     (snd (convert_list_to_json [[0x22, 0x5C, 0xC5, 0x1F600, 0x0A, 0x1F], [], py_str ''Albania'']
             (Some ''out.json'') empty_fs))
     = Some [[0x22, 0x5C, 0xC5, 0x1F600, 0x0A, 0x1F], [], py_str ''Albania'']"
proof -
  have g: "\<forall>s\<in>set [[0x22, 0x5C, 0xC5, 0x1F600, 0x0A, 0x1F], [], py_str ''Albania''].
      \<forall>c\<in>set s. is_codepoint c \<and> \<not> is_surrogate c"
    by (simp add: is_codepoint_def is_surrogate_def py_str_def)
  have h: "open_wb ''out.json'' empty_fs = Inr (empty_fs\<lparr>files := [''out.json'' \<mapsto> []]\<rparr>)"
    by (simp add: open_wb_def dirname_def dir_exists_def empty_fs_def)
  have g': "list_all (list_all (\<lambda>c. is_codepoint c \<and> \<not> is_surrogate c))
     [[0x22, 0x5C, 0xC5, 0x1F600, 0x0A, 0x1F], [], py_str ''Albania'']"
    using g unfolding list_all_iff .
  from g' h roundtrip_without_surrogates[OF g h] show ?thesis by blast
qed

text \<open>
  C2, as it is written, fails in its count: for the input \<open>["A", "A-ring"]\<close> (the second element is the one character U+00C5) the file
  holds eleven bytes that decode to the text of the claim, and that text has ten
  characters, not nine.
\<close>

theorem two_element_text_is_not_nine_characters:
  "files (snd (convert_list_to_json [py_str ''A'', [0xC5]] (Some ''out.json'') empty_fs))
     ''out.json'' = Some [0x5B, 0x22, 0x41, 0x22, 0x2C, 0x20, 0x22, 0xC3, 0x85, 0x22, 0x5D] \<and>
   bytes_decode_utf8 [0x5B, 0x22, 0x41, 0x22, 0x2C, 0x20, 0x22, 0xC3, 0x85, 0x22, 0x5D]
     = Some [0x5B, 0x22, 0x41, 0x22, 0x2C, 0x20, 0x22, 0xC5, 0x22, 0x5D] \<and>
   length [0x5B, 0x22, 0x41, 0x22, 0x2C, 0x20, 0x22, 0xC5, 0x22, 0x5D :: nat] \<noteq> 9"
proof -
  have h: "open_wb ''out.json'' empty_fs = Inr (empty_fs\<lparr>files := [''out.json'' \<mapsto> []]\<rparr>)"
    by (simp add: open_wb_def dirname_def dir_exists_def empty_fs_def)
  have j: "json_dumps [py_str ''A'', [0xC5]]
           = [0x5B, 0x22, 0x41, 0x22, 0x2C, 0x20, 0x22, 0xC5, 0x22, 0x5D]"
    by (simp add: json_dumps_def py_encode_basestring_def escape_char_def py_str_def)
  have e: "str_encode_utf8 (json_dumps [py_str ''A'', [0xC5]])
           = Inr [0x5B, 0x22, 0x41, 0x22, 0x2C, 0x20, 0x22, 0xC3, 0x85, 0x22, 0x5D]"
    unfolding j by (simp add: utf8_char_def)
  from convert_ok[OF h e] decode_encode_utf8[OF e] show ?thesis
    unfolding j by simp
qed

text \<open>
  C2, amended. For the input \<open>["A", "A-ring"]\<close> (second element: the one character U+00C5) and a destination that can be opened for
  writing, the call succeeds and the file holds eleven bytes which, decoded as UTF-8,
  are exactly the ten-character text of that array: one space after the comma, no
  white space around it, no newline at the end.
\<close>

theorem two_element_file_text:
  assumes "open_wb p fs = Inr fs1"
  shows "fst (convert_list_to_json [py_str ''A'', [0xC5]] (Some p) fs) = Inr PyNone \<and>
         files (snd (convert_list_to_json [py_str ''A'', [0xC5]] (Some p) fs)) p
           = Some [0x5B, 0x22, 0x41, 0x22, 0x2C, 0x20, 0x22, 0xC3, 0x85, 0x22, 0x5D] \<and>
         bytes_decode_utf8 [0x5B, 0x22, 0x41, 0x22, 0x2C, 0x20, 0x22, 0xC3, 0x85, 0x22, 0x5D]
           = Some [0x5B, 0x22, 0x41, 0x22, 0x2C, 0x20, 0x22, 0xC5, 0x22, 0x5D] \<and>
         length [0x5B, 0x22, 0x41, 0x22, 0x2C, 0x20, 0x22, 0xC5, 0x22, 0x5D :: nat] = 10"
proof -
  have j: "json_dumps [py_str ''A'', [0xC5]]
           = [0x5B, 0x22, 0x41, 0x22, 0x2C, 0x20, 0x22, 0xC5, 0x22, 0x5D]"
    by (simp add: json_dumps_def py_encode_basestring_def escape_char_def py_str_def)
  have e: "str_encode_utf8 (json_dumps [py_str ''A'', [0xC5]])
           = Inr [0x5B, 0x22, 0x41, 0x22, 0x2C, 0x20, 0x22, 0xC3, 0x85, 0x22, 0x5D]"
    unfolding j by (simp add: utf8_char_def)
  from convert_ok[OF assms e] decode_encode_utf8[OF e] show ?thesis
    unfolding j by simp
qed

theorem two_element_file_text_witness:
  "open_wb ''out.json'' empty_fs = Inr (empty_fs\<lparr>files := [''out.json'' \<mapsto> []]\<rparr>) \<and>
   fst (convert_list_to_json [py_str ''A'', [0xC5]] (Some ''out.json'') empty_fs)
     = Inr PyNone \<and>
   files (snd (convert_list_to_json [py_str ''A'', [0xC5]] (Some ''out.json'') empty_fs))
     ''out.json'' = Some [0x5B, 0x22, 0x41, 0x22, 0x2C, 0x20, 0x22, 0xC3, 0x85, 0x22, 0x5D]"
proof -
  have h: "open_wb ''out.json'' empty_fs = Inr (empty_fs\<lparr>files := [''out.json'' \<mapsto> []]\<rparr>)"
    by (simp add: open_wb_def dirname_def dir_exists_def empty_fs_def)
  from h two_element_file_text[OF h] show ?thesis by blast
qed

end
